theory Spec2Isabelle
  imports Main "HOL-Library.Sublist"
begin

section \<open>Strings\<close>

text \<open>
  A Python \<open>str\<close> is modelled by a \<^typ>\<open>string\<close>: a list of characters with code points
  below 256, read as Latin-1. On these code points \<open>str.lower()\<close> maps one character to
  one character: the ASCII capitals and the Latin-1 capitals (192 to 222, except the
  multiplication sign 215) move up by 32, every other character stays.
  The substring test \<open>w in s\<close> is \<^const>\<open>sublist\<close> \<open>w s\<close>, a slice \<open>s[::-1]\<close> is
  \<^const>\<open>rev\<close>.
\<close>

definition lower_char :: "char \<Rightarrow> char" where
  "lower_char c =
     (let n = (of_char c :: nat) in
      if (65 \<le> n \<and> n \<le> 90) \<or> (192 \<le> n \<and> n \<le> 214) \<or> (216 \<le> n \<and> n \<le> 222)
      then char_of (n + 32) else c)"

definition lower :: "string \<Rightarrow> string" where
  "lower s = map lower_char s"

text \<open>\<open>str.isspace()\<close> on one character, and \<open>str.strip()\<close> without argument.\<close>

definition isspace :: "char \<Rightarrow> bool" where
  "isspace c =
     (let n = (of_char c :: nat) in
      (9 \<le> n \<and> n \<le> 13) \<or> (28 \<le> n \<and> n \<le> 32) \<or> n = 133 \<or> n = 160)"

definition strip :: "string \<Rightarrow> string" where
  "strip s = rev (dropWhile isspace (rev (dropWhile isspace s)))"

text \<open>The f-string fragment \<open>'{w}'\<close>: the value between two apostrophes.\<close>

definition quoted :: "string \<Rightarrow> string" where
  "quoted w = CHR 0x27 # w @ [CHR 0x27]"

section \<open>Configuration\<close>

definition MIN_LENGTH :: nat where
  "MIN_LENGTH = 12"

definition MIN_DICT_WORD_LEN :: nat where
  "MIN_DICT_WORD_LEN = 4"

definition MAX_LEET_SUBSTITUTION :: nat where
  "MAX_LEET_SUBSTITUTION = 2"

definition DEFAULT_DICT_FILES :: "string list" where
  "DEFAULT_DICT_FILES = [''/usr/share/dict/cracklib-small'']"

definition LEET_MAP :: "(char \<times> char) list" where
  "LEET_MAP =
     [(CHR ''0'', CHR ''o''), (CHR ''1'', CHR ''l''), (CHR ''3'', CHR ''e''),
      (CHR ''4'', CHR ''a''), (CHR ''5'', CHR ''s''), (CHR ''7'', CHR ''t''),
      (CHR ''@'', CHR ''a''), (CHR ''$'', CHR ''s''), (CHR ''!'', CHR ''i''),
      (CHR ''9'', CHR ''g'')]"

section \<open>Exceptions\<close>

text \<open>
  The exceptions the modelled code can meet. A function that can raise returns
  \<open>exn + 'a\<close>, with \<^const>\<open>Inl\<close> for the exception that leaves it.
\<close>

datatype exn =
    KeyError char
  | NameError string
  | TypeError string
  | EOFError
  | FileNotFoundError string
  | PermissionError string
  | OSError string

text \<open>\<open>d[k]\<close> on a dictionary: \<open>KeyError\<close> when the key is absent.\<close>

definition getitem :: "(char \<times> char) list \<Rightarrow> char \<Rightarrow> exn + char" where
  "getitem d k = (case map_of d k of None \<Rightarrow> Inl (KeyError k) | Some v \<Rightarrow> Inr v)"

section \<open>Pattern detector: \<open>obvious_patterns\<close>\<close>

text \<open>
  \<open>re.search(r"(.)\1\1\1", pw)\<close>: some position holds a character that the dot matches,
  followed by three copies of it. Without the DOTALL flag the dot matches every character
  but the line feed.
\<close>

fun repeated4 :: "string \<Rightarrow> bool" where
  "repeated4 (a # b # c # d # s) =
     ((a \<noteq> CHR 0x0A \<and> b = a \<and> c = a \<and> d = a) \<or> repeated4 (b # c # d # s))"
| "repeated4 _ = False"

text \<open>
  The list literal of the source has no comma between its four string literals, so
  Python joins them at compile time: \<open>sequences\<close> holds one string of 70 characters.
\<close>

definition sequences :: "string list" where
  "sequences =
     [''abcdefghijklmnopqrstuvwxyz'' @
      ''qwertyuiopasdfghjklzxcvbnm'' @
      ''1234567890'' @
      ''password'']"

text \<open>The slices \<open>seq[i:i + l]\<close> for \<open>i\<close> in \<open>range(len(seq) - l + 1)\<close>, in order.\<close>

definition chunks :: "nat \<Rightarrow> string \<Rightarrow> string list" where
  "chunks l seq = map (\<lambda>i. take l (drop i seq)) [0..<length seq + 1 - l]"

text \<open>The innermost loop: the first chunk that hits appends one issue and breaks.\<close>

fun scan_chunks :: "string \<Rightarrow> string list \<Rightarrow> string list" where
  "scan_chunks pw [] = []"
| "scan_chunks pw (chunk # rest) =
     (if sublist chunk pw \<or> sublist (rev chunk) pw
      then [''Password contains weak sequence '' @ quoted chunk]
      else scan_chunks pw rest)"

definition obvious_patterns :: "string \<Rightarrow> string list" where
  "obvious_patterns password =
     (let pw = lower password;
          issues = (if repeated4 pw then [''Password contains 4+ repeated characters''] else [])
      in issues @
         concat (map (\<lambda>seq. concat (map (\<lambda>l. scan_chunks pw (chunks l seq)) [4, 5]))
                     sequences))"

section \<open>Dictionary matcher: \<open>contains_dictionary\<close>\<close>

text \<open>
  The word set is a Python \<open>set\<close> of strings. The code only iterates over it, so it is
  modelled by the list of its elements in iteration order.

  \<open>leet_loop\<close> is the loop over the characters of the lowercased password, with the
  local variables \<open>normalized_characters\<close> (joined: \<open>normalized\<close>) and \<open>leet_changes\<close>
  as arguments.
\<close>

fun leet_loop :: "string list \<Rightarrow> string \<Rightarrow> nat \<Rightarrow> string \<Rightarrow> exn + (bool \<times> string)" where
  "leet_loop wordset normalized leet_changes [] = Inr (False, [])"
| "leet_loop wordset normalized leet_changes (ch # rest) =
     (case (if map_of LEET_MAP ch \<noteq> None
            then (case getitem LEET_MAP ch of
                    Inl e \<Rightarrow> Inl e
                  | Inr c \<Rightarrow> Inr (normalized @ [c], leet_changes + 1))
            else Inr (normalized @ [ch], leet_changes)) of
        Inl e \<Rightarrow> Inl e
      | Inr (normalized', leet_changes') \<Rightarrow>
          (if leet_changes' \<le> MAX_LEET_SUBSTITUTION
           then (case find (\<lambda>w. sublist w normalized') wordset of
                   Some w \<Rightarrow> Inr (True, ''contains dictionary word '' @ quoted w)
                 | None \<Rightarrow> leet_loop wordset normalized' leet_changes' rest)
           else leet_loop wordset normalized' leet_changes' rest))"

definition contains_dictionary :: "string \<Rightarrow> string list \<Rightarrow> exn + (bool \<times> string)" where
  "contains_dictionary pw wordset =
     (let lower = lower pw in
      case find (\<lambda>w. \<not> length w < MIN_DICT_WORD_LEN \<and> sublist w lower) wordset of
        Some w \<Rightarrow> Inr (True, ''contains dictionary word '' @ quoted w)
      | None \<Rightarrow>
          (let rev = rev lower in
           case find (\<lambda>w. sublist w rev) wordset of
             Some w \<Rightarrow> Inr (True, ''contains reversed dictionary word '' @ quoted w)
           | None \<Rightarrow> leet_loop wordset [] 0 lower))"

section \<open>Strength evaluator: \<open>check_password_strength\<close>\<close>

definition char_between :: "char \<Rightarrow> char \<Rightarrow> char \<Rightarrow> bool" where
  "char_between lo hi c = ((of_char lo :: nat) \<le> of_char c \<and> (of_char c :: nat) \<le> of_char hi)"

text \<open>The four regular expressions of the diversity rule, each as a test on one character.\<close>

definition is_lower_class :: "char \<Rightarrow> bool" where
  "is_lower_class c = char_between CHR ''a'' CHR ''z'' c"

definition is_upper_class :: "char \<Rightarrow> bool" where
  "is_upper_class c = char_between CHR ''A'' CHR ''Z'' c"

definition is_digit_class :: "char \<Rightarrow> bool" where
  "is_digit_class c = char_between CHR ''0'' CHR ''9'' c"

definition is_symbol_class :: "char \<Rightarrow> bool" where
  "is_symbol_class c = (\<not> (is_upper_class c \<or> is_lower_class c \<or> is_digit_class c))"

text \<open>\<open>sum(bool(re.search(p, pw)) for p in [...])\<close>: how many of the four classes occur.\<close>

definition categories :: "string \<Rightarrow> nat" where
  "categories pw =
     length (filter (\<lambda>p. list_ex p pw)
                    [is_lower_class, is_upper_class, is_digit_class, is_symbol_class])"

text \<open>
  The reasons are appended in the order of the source. The first one is the f-string
  \<open>Password too short (min {MIN_LENGTH})\<close> with the constant written out.
\<close>

definition check_password_strength :: "string \<Rightarrow> string list \<Rightarrow> exn + string list" where
  "check_password_strength pw wordset =
     (let reasons = (if length pw < MIN_LENGTH then [''Password too short (min 12)''] else [])
      in case contains_dictionary pw wordset of
           Inl e \<Rightarrow> Inl e
         | Inr (hit, msg) \<Rightarrow>
             (let reasons = reasons @ (if hit then [msg] else []);
                  reasons = reasons @ obvious_patterns pw;
                  reasons = reasons @ (if categories pw < 3 \<and> length pw < 20
                                       then [''Too many similar characters''] else [])
              in Inr reasons))"

section \<open>Dictionary loader: \<open>load_word_set\<close>\<close>

text \<open>
  The file system is a function from a path to what reading that path gives: the lines
  the loop over the file handle yields, and the exception that ends the reading, if any.
  A file that cannot be opened yields no line and the exception of \<open>open\<close>; a file read
  to its end yields its lines and no exception. Undecodable bytes are dropped by
  \<open>errors="ignore"\<close> and raise nothing.

  The set \<open>words\<close> is kept as a list without repetition (\<open>set_add\<close> is \<open>words.add\<close>).
  The list lists the elements in the order of insertion; the order in which CPython
  iterates the set is not fixed by the model.
\<close>

type_synonym filesystem = "string \<Rightarrow> string list \<times> exn option"

definition set_add :: "string \<Rightarrow> string list \<Rightarrow> string list" where
  "set_add w words = (if w \<in> set words then words else words @ [w])"

definition add_line :: "string list \<Rightarrow> string \<Rightarrow> string list" where
  "add_line words line =
     (let w = lower (strip line)
      in if length w \<ge> MIN_DICT_WORD_LEN then set_add w words else words)"

text \<open>The handler \<open>except (FileNotFoundError, PermissionError)\<close>: the exceptions it catches.\<close>

fun caught :: "exn \<Rightarrow> bool" where
  "caught (FileNotFoundError m) = True"
| "caught (PermissionError m) = True"
| "caught _ = False"

fun load_loop :: "filesystem \<Rightarrow> string list \<Rightarrow> string list \<Rightarrow> exn + string list" where
  "load_loop fs words [] = Inr words"
| "load_loop fs words (p # paths) =
     (case fs p of
        (lines, raised) \<Rightarrow>
          (let words' = foldl add_line words lines
           in case raised of
                None \<Rightarrow> load_loop fs words' paths
              | Some e \<Rightarrow> if caught e then load_loop fs words' paths else Inl e))"

definition load_word_set :: "filesystem \<Rightarrow> string list \<Rightarrow> exn + string list" where
  "load_word_set fs paths = load_loop fs [] paths"

section \<open>Credential applier: \<open>set_system_password\<close>\<close>

text \<open>
  What the process can observe and change: whether the marker file exists, and what has
  been printed (one entry for each call of \<open>print\<close>).
\<close>

record world =
  marker_exists :: bool
  printed :: "string list"

definition print :: "string \<Rightarrow> world \<Rightarrow> world" where
  "print s w = w\<lparr>printed := printed w @ [s]\<rparr>"

text \<open>
  The names bound at the top level of the module: its imports, its constants and its
  functions. A name that is neither local to the running function nor one of these (nor
  a builtin) raises \<open>NameError\<close> when it is read.
\<close>

definition module_globals :: "string list" where
  "module_globals =
     [''sys'', ''re'', ''subprocess'', ''getpass'', ''os'', ''Path'',
      ''MARKER'', ''MIN_LENGTH'', ''MIN_DICT_WORD_LEN'', ''MAX_LEET_SUBSTITUTION'',
      ''DEFAULT_DICT_FILES'', ''LEET_MAP'',
      ''load_word_set'', ''obvious_patterns'', ''contains_dictionary'',
      ''check_password_strength'', ''set_system_password'', ''main'']"

text \<open>A value read from a name: a string, or some object that is not a string.\<close>

datatype pyval = Str string | Obj

definition load_name :: "(string \<times> pyval) list \<Rightarrow> string \<Rightarrow> exn + pyval" where
  "load_name locals n =
     (case map_of locals n of
        Some v \<Rightarrow> Inr v
      | None \<Rightarrow> if n \<in> set module_globals then Inr Obj else Inl (NameError n))"

text \<open>\<open>a + b\<close> where a string is expected: concatenation, \<open>TypeError\<close> otherwise.\<close>

fun str_add :: "pyval \<Rightarrow> pyval \<Rightarrow> exn + pyval" where
  "str_add (Str a) (Str b) = Inr (Str (a @ b))"
| "str_add _ _ = Inl (TypeError ''unsupported operand type(s) for +'')"

definition bind :: "exn + 'a \<Rightarrow> ('a \<Rightarrow> exn + 'b) \<Rightarrow> exn + 'b" where
  "bind m f = (case m of Inl e \<Rightarrow> Inl e | Inr x \<Rightarrow> f x)"

text \<open>\<open>str(e)\<close> for an exception, as the handler's f-string prints it.\<close>

fun exn_str :: "exn \<Rightarrow> string" where
  "exn_str (KeyError k) = quoted [k]"
| "exn_str (NameError n) = ''name '' @ quoted n @ '' is not defined''"
| "exn_str (TypeError m) = m"
| "exn_str EOFError = []"
| "exn_str (FileNotFoundError m) = m"
| "exn_str (PermissionError m) = m"
| "exn_str (OSError m) = m"

text \<open>
  The \<open>passwd\<close> program as \<open>subprocess.run\<close> sees it: given the bytes on its standard
  input, the call raises (the program is missing, say) or completes with a return code,
  its standard output and its standard error.
\<close>

type_synonym passwd_run = "string \<Rightarrow> exn + (int \<times> string \<times> string)"

text \<open>
  The expression \<open>bbpassword + "\n" + password + "\n" + password + "\n"\<close>, evaluated
  from left to right in the scope of \<open>set_system_password\<close>, whose only local name at
  that point is its parameter \<open>password\<close>.
\<close>

definition passwd_input :: "string \<Rightarrow> exn + string" where
  "passwd_input password =
     (let locals = [(''password'', Str password)]; nl = Str [CHR 0x0A] in
      bind (load_name locals ''bbpassword'') (\<lambda>v0.
      bind (str_add v0 nl) (\<lambda>v1.
      bind (load_name locals ''password'') (\<lambda>p1.
      bind (str_add v1 p1) (\<lambda>v2.
      bind (str_add v2 nl) (\<lambda>v3.
      bind (load_name locals ''password'') (\<lambda>p2.
      bind (str_add v3 p2) (\<lambda>v4.
      bind (str_add v4 nl) (\<lambda>v5.
        case v5 of Str s \<Rightarrow> Inr s | Obj \<Rightarrow> Inl (TypeError ''encode''))))))))))"

definition set_system_password :: "passwd_run \<Rightarrow> string \<Rightarrow> world \<Rightarrow> bool \<times> world" where
  "set_system_password passwd password w =
     (case bind (passwd_input password) passwd of
        Inr (returncode, out, err) \<Rightarrow>
          (let w = print out w
           in if returncode \<noteq> 0 then (False, print err w) else (True, w))
      | Inl e \<Rightarrow> (False, print (''Error running passwd: '' @ exn_str e) w))"

section \<open>Session controller: \<open>main\<close>\<close>

text \<open>
  How a run of \<open>main\<close> ends: it returns, it leaves through \<open>sys.exit\<close> with a code, or
  an exception leaves it. The terminal is the list of lines still to be typed; each
  \<open>getpass.getpass\<close> takes one line, and raises \<open>EOFError\<close> when none is left. A run
  on an endless input that is never accepted does not end; every finite stretch of it is
  the run on a finite input that ends with \<open>EOFError\<close>.

  \<open>main_loop\<close> is the \<open>while True\<close> loop. The function applied to an accepted password
  is an argument, so that the loop can be read with any credential applier; \<open>main\<close>
  passes \<open>set_system_password\<close>, as the source does. The loop iterates the word set
  in the order of the loader's list; the order only decides which word a dictionary
  reason names, never whether a password is accepted (this is proved below).
\<close>

datatype outcome = Returned | Exited int | Raised exn

type_synonym applier = "string \<Rightarrow> world \<Rightarrow> bool \<times> world"

fun main_loop :: "applier \<Rightarrow> string list \<Rightarrow> string list \<Rightarrow> world \<Rightarrow> outcome \<times> world" where
  "main_loop apply wordset [] w = (Raised EOFError, w)"
| "main_loop apply wordset [pw1] w = (Raised EOFError, w)"
| "main_loop apply wordset (pw1 # pw2 # tty) w =
     (if pw1 \<noteq> pw2
      then main_loop apply wordset tty (print (''Passwords do not match. Try again.'' @ [CHR 0x0A]) w)
      else case check_password_strength pw1 wordset of
             Inl e \<Rightarrow> (Raised e, w)
           | Inr reasons \<Rightarrow>
               (if reasons \<noteq> []
                then main_loop apply wordset tty
                       (print ([CHR 0x0A] @ ''Please try again.'' @ [CHR 0x0A])
                          (foldl (\<lambda>w r. print (''- '' @ r) w) (print ''Password too weak:'' w) reasons))
                else (case apply pw1 (print (''Password accepted. Updating bbuser password...'' @ [CHR 0x0A]) w) of
                        (ok, w') \<Rightarrow>
                          (if ok
                           then (Exited 0, print ''Password has been updated.'' w')
                           else main_loop apply wordset tty
                                  (print (''Failed to update password. Try again.'' @ [CHR 0x0A]) w')))))"

definition main_with :: "applier \<Rightarrow> filesystem \<Rightarrow> string list \<Rightarrow> world \<Rightarrow> outcome \<times> world" where
  "main_with apply fs tty w =
     (if marker_exists w
      then (Returned, print ''Password already changed, exiting.'' w)
      else (let w = print ''Password change required for bbuser. Ensure that you will remember this password.'' w;
                w = print ''First input your current password once, then you will be prompted to input the new password twice'' w;
                w = print ''The minimum character length is 12. Please do not use any dictionary words or chains of repeated characters.'' w
            in case load_word_set fs DEFAULT_DICT_FILES of
                 Inl e \<Rightarrow> (Raised e, w)
               | Inr wordset \<Rightarrow> main_loop apply wordset tty w))"

definition main :: "passwd_run \<Rightarrow> filesystem \<Rightarrow> string list \<Rightarrow> world \<Rightarrow> outcome \<times> world" where
  "main passwd fs tty w = main_with (set_system_password passwd) fs tty w"

section \<open>The leet stage, as the specification words it\<close>

text \<open>
  The specification describes the third stage of the matcher as a fold over the
  characters: each step yields the normalized prefix and the number of substitutions so
  far; a prefix is checked when that number is at most the maximum; the first checked
  prefix that contains a word of the set is reported, with the first such word.
\<close>

definition leet_char :: "char \<Rightarrow> char" where
  "leet_char ch = (case map_of LEET_MAP ch of Some c \<Rightarrow> c | None \<Rightarrow> ch)"

definition leet_count :: "string \<Rightarrow> nat" where
  "leet_count s = length (filter (\<lambda>ch. map_of LEET_MAP ch \<noteq> None) s)"

definition checked_prefixes :: "nat \<Rightarrow> string \<Rightarrow> string list" where
  "checked_prefixes start s =
     map (\<lambda>k. map leet_char (take k s))
         (filter (\<lambda>k. leet_count (take k s) \<le> MAX_LEET_SUBSTITUTION) [start..<Suc (length s)])"

definition first_hit :: "string list \<Rightarrow> string list \<Rightarrow> bool \<times> string" where
  "first_hit wordset checked =
     (case find (\<lambda>(normalized, w). sublist w normalized)
                (concat (map (\<lambda>normalized. map (\<lambda>w. (normalized, w)) wordset) checked)) of
        None \<Rightarrow> (False, [])
      | Some (normalized, w) \<Rightarrow> (True, ''contains dictionary word '' @ quoted w))"

definition leet_stage_spec :: "string list \<Rightarrow> string \<Rightarrow> bool \<times> string" where
  "leet_stage_spec wordset s = first_hit wordset (checked_prefixes 1 s)"

section \<open>The character classes, as the specification words them\<close>

text \<open>
  The specification counts four classes: lowercase letter, uppercase letter, digit, and
  symbol (anything not alphanumeric). On code points below 256 the lowercase letters are
  the characters for which \<open>str.islower()\<close> holds, the uppercase letters those for which
  \<open>str.isupper()\<close> holds, the digits \<open>0\<close> to \<open>9\<close>, and the alphanumeric characters those
  for which \<open>str.isalnum()\<close> holds.
\<close>

definition spec_lowercase_letter :: "char \<Rightarrow> bool" where
  "spec_lowercase_letter c =
     (let n = (of_char c :: nat) in
      (97 \<le> n \<and> n \<le> 122) \<or> n = 170 \<or> n = 181 \<or> n = 186 \<or>
      (223 \<le> n \<and> n \<le> 246) \<or> (248 \<le> n \<and> n \<le> 255))"

definition spec_uppercase_letter :: "char \<Rightarrow> bool" where
  "spec_uppercase_letter c =
     (let n = (of_char c :: nat) in
      (65 \<le> n \<and> n \<le> 90) \<or> (192 \<le> n \<and> n \<le> 214) \<or> (216 \<le> n \<and> n \<le> 222))"

definition spec_digit :: "char \<Rightarrow> bool" where
  "spec_digit c = (let n = (of_char c :: nat) in 48 \<le> n \<and> n \<le> 57)"

definition spec_alphanumeric :: "char \<Rightarrow> bool" where
  "spec_alphanumeric c =
     (let n = (of_char c :: nat) in
      spec_lowercase_letter c \<or> spec_uppercase_letter c \<or> spec_digit c \<or>
      n = 178 \<or> n = 179 \<or> n = 185 \<or> (188 \<le> n \<and> n \<le> 190))"

definition spec_symbol :: "char \<Rightarrow> bool" where
  "spec_symbol c = (\<not> spec_alphanumeric c)"

definition spec_categories :: "string \<Rightarrow> nat" where
  "spec_categories pw =
     length (filter (\<lambda>p. list_ex p pw)
                    [spec_lowercase_letter, spec_uppercase_letter, spec_digit, spec_symbol])"

section \<open>Properties of the pattern detector\<close>

text \<open>
  C1 (fails on the code): the claim has four reference strings, each scanned on its own,
  so that a password with chunks of two of them gets an issue for each at each length.
  The code scans the one joined string: on \<open>qwerty123456\<close>, which holds chunks of the
  keyboard row and of the digit sequence, it reports the keyboard chunks \<open>qwer\<close> and
  \<open>qwert\<close> and nothing for the digits. It also reports \<open>zqwe\<close>, which lies across
  the end of the alphabet and the start of the keyboard row.
\<close>

theorem obvious_patterns_joined_sequences:
  "length sequences = 1
   \<and> obvious_patterns ''qwerty123456'' =
       [''Password contains weak sequence '' @ quoted ''qwer'',
        ''Password contains weak sequence '' @ quoted ''qwert'']
   \<and> obvious_patterns ''xzqwex'' = [''Password contains weak sequence '' @ quoted ''zqwe'']"
  by code_simp

section \<open>The evaluator returns\<close>

lemma leet_loop_returns: "\<exists>r. leet_loop ws norm n s = Inr r"
proof (induction s arbitrary: norm n)
  case Nil
  show ?case by auto
next
  case (Cons ch rest)
  show ?case
  proof (cases "map_of LEET_MAP ch")
    case None
    then show ?thesis using Cons.IH [of "norm @ [ch]" n] by (auto split: option.splits)
  next
    case (Some c)
    then have "getitem LEET_MAP ch = Inr c" by (simp add: getitem_def)
    with Some show ?thesis using Cons.IH [of "norm @ [c]" "n + 1"] by (auto split: option.splits)
  qed
qed

lemma contains_dictionary_returns: "\<exists>r. contains_dictionary pw ws = Inr r"
  using leet_loop_returns [of ws "[]" 0 "lower pw"]
  by (auto simp: contains_dictionary_def Let_def split: option.splits)

section \<open>Properties of the credential applier and of the session\<close>

lemma passwd_input_raises: "passwd_input password = Inl (NameError ''bbpassword'')"
  by (simp add: passwd_input_def load_name_def module_globals_def bind_def)

lemma set_system_password_fails:
  "set_system_password passwd password w =
     (False, print (''Error running passwd: name '' @ quoted ''bbpassword'' @ '' is not defined'') w)"
  by (simp add: set_system_password_def passwd_input_raises bind_def)

lemma main_loop_never_exits:
  "fst (main_loop (set_system_password passwd) ws tty w) \<noteq> Exited n"
  by (induction "set_system_password passwd" ws tty w rule: main_loop.induct)
     (auto simp: set_system_password_fails split: sum.splits)

text \<open>
  C4: for every password, \<open>set_system_password\<close> returns \<open>False\<close> after printing the
  diagnostic of the \<open>NameError\<close> that reading \<open>bbpassword\<close> raises, whatever the
  \<open>passwd\<close> program would do; hence no run of \<open>main\<close> ends through \<open>sys.exit(0)\<close>, or
  through any exit code.
\<close>

theorem set_system_password_always_False:
  "set_system_password passwd password w =
     (False, print (''Error running passwd: name '' @ quoted ''bbpassword'' @ '' is not defined'') w)
   \<and> fst (main passwd fs tty w) \<noteq> Exited n"
  by (simp add: set_system_password_fails main_def main_with_def main_loop_never_exits Let_def
           split: sum.splits)











section \<open>The repetition rule\<close>

lemma repeated4_Cons: "repeated4 s \<Longrightarrow> repeated4 (x # s)"
  by (induction s rule: repeated4.induct) auto

lemma repeated4_append: "repeated4 s \<Longrightarrow> repeated4 (ps @ s)"
  by (induction ps) (simp_all add: repeated4_Cons)

lemma replicate4: "replicate 4 c = [c, c, c, c]"
  by (simp add: numeral_eq_Suc)

lemma repeated4_run:
  assumes "c \<noteq> CHR 0x0A" and "sublist (replicate 4 c) s"
  shows "repeated4 s"
proof -
  from assms(2) obtain ps ss where "s = ps @ replicate 4 c @ ss"
    by (auto simp: sublist_def)
  then have "s = ps @ (c # c # c # c # ss)" by (simp add: replicate4)
  moreover have "repeated4 (c # c # c # c # ss)" using assms(1) by simp
  ultimately show ?thesis by (simp only: repeated4_append)
qed

text \<open>Conversely, the pattern only matches such a run.\<close>

lemma repeated4_has_run: "repeated4 s \<Longrightarrow> \<exists>c. c \<noteq> CHR 0x0A \<and> sublist (replicate 4 c) s"
proof (induction s rule: repeated4.induct)
  case (1 a b c d s)
  show ?case
  proof (cases "a \<noteq> CHR 0x0A \<and> b = a \<and> c = a \<and> d = a")
    case True
    then have "sublist (replicate 4 a) (a # b # c # d # s)"
      using sublist_append_rightI [of "[a, a, a, a]" s] by (simp add: replicate4)
    with True show ?thesis by blast
  next
    case False
    with 1 obtain e where e: "e \<noteq> CHR 0x0A" "sublist (replicate 4 e) (b # c # d # s)" by auto
    then have "sublist (replicate 4 e) (a # b # c # d # s)"
      by (simp add: sublist_Cons_right)
    with e show ?thesis by blast
  qed
qed simp_all

lemma of_char_lower_char:
  "(of_char (lower_char c) :: nat) =
     (let n = of_char c in
      if (65 \<le> n \<and> n \<le> 90) \<or> (192 \<le> n \<and> n \<le> 214) \<or> (216 \<le> n \<and> n \<le> 222)
      then n + 32 else n)"
  by (auto simp: lower_char_def Let_def)

lemma lower_char_eq_LF: "lower_char c = CHR 0x0A \<longleftrightarrow> c = CHR 0x0A"
proof
  assume "lower_char c = CHR 0x0A"
  then have "(of_char (lower_char c) :: nat) = 10" by simp
  then have "(of_char c :: nat) = 10"
    by (auto simp: of_char_lower_char Let_def split: if_splits)
  then have "(of_char c :: nat) = of_char (CHR 0x0A)" by simp
  then show "c = CHR 0x0A" by (simp only: of_char_eq_iff)
next
  assume "c = CHR 0x0A"
  then show "lower_char c = CHR 0x0A" by (simp add: lower_char_def)
qed

lemma sublist_lower_run:
  "sublist (replicate n c) s \<Longrightarrow> sublist (replicate n (lower_char c)) (lower s)"
  using map_mono_sublist [of "replicate n c" s lower_char] by (simp add: lower_def)

lemma sublist_replicate_le:
  "m \<le> n \<Longrightarrow> sublist (replicate n c) s \<Longrightarrow> sublist (replicate m c) s"
proof -
  assume "m \<le> n" and s: "sublist (replicate n c) s"
  then have "replicate n c = replicate m c @ replicate (n - m) c"
    by (simp add: replicate_add [symmetric])
  then have "sublist (replicate m c) (replicate n c)" by simp
  from this s show ?thesis by (rule sublist_order.order_trans)
qed

lemma obvious_patterns_repeated4:
  "repeated4 (lower password) \<Longrightarrow>
     ''Password contains 4+ repeated characters'' \<in> set (obvious_patterns password)"
  by (simp add: obvious_patterns_def Let_def)

text \<open>
  C5 (amended): for every password whose lowercased form contains a run of 4 or more
  copies of one character other than the line feed, and so for every password that
  contains such a run itself, \<open>obvious_patterns\<close> reports the repetition issue; and
  \<open>aaaaaaaaaaaa\<close> is rejected with this reason whatever the word set.
\<close>

theorem obvious_patterns_repetition:
  "(c \<noteq> CHR 0x0A \<and> 4 \<le> n \<and>
      (sublist (replicate n c) (lower password) \<or> sublist (replicate n c) password)
    \<longrightarrow> ''Password contains 4+ repeated characters'' \<in> set (obvious_patterns password))
   \<and> (\<exists>rs. check_password_strength ''aaaaaaaaaaaa'' wordset = Inr rs \<and>
             ''Password contains 4+ repeated characters'' \<in> set rs)"
proof (intro conjI impI)
  assume a: "c \<noteq> CHR 0x0A \<and> 4 \<le> n \<and>
      (sublist (replicate n c) (lower password) \<or> sublist (replicate n c) password)"
  then consider "sublist (replicate n c) (lower password)" | "sublist (replicate n c) password"
    by blast
  then have "\<exists>d. d \<noteq> CHR 0x0A \<and> sublist (replicate n d) (lower password)"
  proof cases
    case 1
    with a show ?thesis by blast
  next
    case 2
    then have "sublist (replicate n (lower_char c)) (lower password)"
      by (rule sublist_lower_run)
    moreover have "lower_char c \<noteq> CHR 0x0A" using a by (simp add: lower_char_eq_LF)
    ultimately show ?thesis by blast
  qed
  then obtain d where d: "d \<noteq> CHR 0x0A" "sublist (replicate n d) (lower password)" by blast
  from a d(2) have "sublist (replicate 4 d) (lower password)"
    using sublist_replicate_le [of 4 n d] by blast
  with d(1) have "repeated4 (lower password)" by (rule repeated4_run)
  then show "''Password contains 4+ repeated characters'' \<in> set (obvious_patterns password)"
    by (rule obvious_patterns_repeated4)
next
  have r: "repeated4 (lower ''aaaaaaaaaaaa'')" by code_simp
  obtain h m where "contains_dictionary ''aaaaaaaaaaaa'' wordset = Inr (h, m)"
    using contains_dictionary_returns [of "''aaaaaaaaaaaa''" wordset] by auto
  then show "\<exists>rs. check_password_strength ''aaaaaaaaaaaa'' wordset = Inr rs \<and>
             ''Password contains 4+ repeated characters'' \<in> set rs"
    using obvious_patterns_repeated4 [OF r]
    by (simp add: check_password_strength_def Let_def)
qed

theorem obvious_patterns_repetition_witness:
  "CHR ''z'' \<noteq> CHR 0x0A \<and> (4::nat) \<le> 5 \<and> sublist (replicate 5 CHR ''z'') ''xxZzZZzyy'' = False
   \<and> sublist (replicate 5 CHR ''z'') (lower ''xxZzZZzyy'')
   \<and> ''Password contains 4+ repeated characters'' \<in> set (obvious_patterns ''xxZzZZzyy'')
   \<and> (\<exists>rs. check_password_strength ''aaaaaaaaaaaa'' [''dragon''] = Inr rs \<and>
             ''Password contains 4+ repeated characters'' \<in> set rs)"
proof -
  have h: "CHR ''z'' \<noteq> CHR 0x0A" "(4::nat) \<le> 5" by simp_all
  have s: "sublist (replicate 5 CHR ''z'') (lower ''xxZzZZzyy'')" by code_simp
  have n: "sublist (replicate 5 CHR ''z'') ''xxZzZZzyy'' = False" by code_simp
  from obvious_patterns_repetition [of "CHR ''z''" 5 "''xxZzZZzyy''" "[''dragon'']"] h s n
  show ?thesis by blast
qed

text \<open>
  The claim as stated, for any repeated character, fails on a run of line feeds: the dot
  of the regular expression does not match a line feed.
\<close>

theorem obvious_patterns_line_feeds:
  "sublist (replicate 4 (CHR 0x0A)) [CHR 0x0A, CHR 0x0A, CHR 0x0A, CHR 0x0A] \<and>
   ''Password contains 4+ repeated characters''
      \<notin> set (obvious_patterns [CHR 0x0A, CHR 0x0A, CHR 0x0A, CHR 0x0A])"
  by code_simp

section \<open>The leet loop and its specification\<close>

lemma find_append_cases:
  "find P (xs @ ys) = (case find P xs of None \<Rightarrow> find P ys | Some x \<Rightarrow> Some x)"
  by (induction xs) simp_all

lemma find_map_pair:
  "find (\<lambda>(p, w). Q w p) (map (\<lambda>w. (p, w)) ws) = map_option (\<lambda>w. (p, w)) (find (\<lambda>w. Q w p) ws)"
  by (induction ws) simp_all

lemma find_Some_mem: "find P xs = Some x \<Longrightarrow> x \<in> set xs \<and> P x"
  by (induction xs) (auto split: if_splits)

lemma first_hit_Nil: "first_hit ws [] = (False, [])"
  by (simp add: first_hit_def)

lemma first_hit_Cons:
  "first_hit ws (p # ps) =
     (case find (\<lambda>w. sublist w p) ws of
        Some w \<Rightarrow> (True, ''contains dictionary word '' @ quoted w)
      | None \<Rightarrow> first_hit ws ps)"
  by (simp add: first_hit_def find_append_cases find_map_pair split: option.splits)

lemma first_hit_flag:
  "fst (first_hit ws ps) \<longleftrightarrow> (\<exists>p\<in>set ps. \<exists>w\<in>set ws. sublist w p)"
  by (induction ps) (auto simp: first_hit_Nil first_hit_Cons find_None_iff split: option.splits
                       dest: find_Some_mem)

lemma first_hit_word:
  "fst (first_hit ws ps) \<Longrightarrow>
     \<exists>p\<in>set ps. \<exists>w\<in>set ws. sublist w p \<and>
        first_hit ws ps = (True, ''contains dictionary word '' @ quoted w)"
proof (induction ps)
  case Nil
  then show ?case by (simp add: first_hit_Nil)
next
  case (Cons p ps)
  show ?case
  proof (cases "find (\<lambda>w. sublist w p) ws")
    case None
    with Cons show ?thesis by (auto simp: first_hit_Cons)
  next
    case (Some w)
    then have "w \<in> set ws" "sublist w p"
      by (auto dest: find_Some_mem)
    with Some show ?thesis by (auto simp: first_hit_Cons)
  qed
qed

lemma leet_step:
  "(if map_of LEET_MAP ch \<noteq> None
    then (case getitem LEET_MAP ch of
            Inl e \<Rightarrow> Inl e
          | Inr c \<Rightarrow> Inr (norm @ [c], n + 1))
    else Inr (norm @ [ch], n))
   = Inr (norm @ [leet_char ch], n + leet_count [ch])"
  by (auto simp: getitem_def leet_char_def leet_count_def split: option.splits)

lemma leet_count_snoc: "leet_count (pre @ [ch]) = leet_count pre + leet_count [ch]"
  by (simp add: leet_count_def)

lemma checked_prefixes_end: "checked_prefixes (Suc (length s)) s = []"
  by (simp add: checked_prefixes_def)

lemma checked_prefixes_step:
  "checked_prefixes (Suc (length pre)) (pre @ ch # rest) =
     (if leet_count (pre @ [ch]) \<le> MAX_LEET_SUBSTITUTION then [map leet_char (pre @ [ch])] else [])
     @ checked_prefixes (Suc (length (pre @ [ch]))) ((pre @ [ch]) @ rest)"
proof -
  have "[Suc (length pre)..<Suc (length (pre @ ch # rest))] =
        Suc (length pre) # [Suc (Suc (length pre))..<Suc (length (pre @ ch # rest))]"
    by (rule upt_conv_Cons) simp
  then show ?thesis by (simp add: checked_prefixes_def)
qed

lemma leet_loop_refines:
  "leet_loop ws (map leet_char pre) (leet_count pre) rest =
     Inr (first_hit ws (checked_prefixes (Suc (length pre)) (pre @ rest)))"
proof (induction rest arbitrary: pre)
  case Nil
  show ?case by (simp add: checked_prefixes_end first_hit_Nil)
next
  case (Cons ch rest)
  have ih: "leet_loop ws (map leet_char pre @ [leet_char ch]) (leet_count pre + leet_count [ch]) rest =
     Inr (first_hit ws (checked_prefixes (Suc (length (pre @ [ch]))) ((pre @ [ch]) @ rest)))"
    using Cons.IH [of "pre @ [ch]"] by (simp add: leet_count_snoc)
  show ?case
    unfolding leet_loop.simps leet_step checked_prefixes_step
    by (simp add: ih leet_count_snoc first_hit_Cons del: append_assoc split: option.splits)
qed

lemma leet_loop_start:
  "leet_loop ws [] 0 s = Inr (leet_stage_spec ws s)"
  using leet_loop_refines [of ws "[]" s] by (simp add: leet_stage_spec_def leet_count_def)

lemma leet_loop_over_budget:
  "MAX_LEET_SUBSTITUTION < n \<Longrightarrow> leet_loop ws norm n rest = Inr (False, [])"
proof (induction rest arbitrary: norm n)
  case Nil
  show ?case by simp
next
  case (Cons ch rest)
  have "MAX_LEET_SUBSTITUTION < n + leet_count [ch]" using Cons.prems by simp
  then show ?case
    unfolding leet_loop.simps leet_step using Cons.IH by simp
qed

lemma contains_dictionary_stages:
  "contains_dictionary pw ws =
     Inr (case find (\<lambda>w. \<not> length w < MIN_DICT_WORD_LEN \<and> sublist w (lower pw)) ws of
            Some w \<Rightarrow> (True, ''contains dictionary word '' @ quoted w)
          | None \<Rightarrow>
              (case find (\<lambda>w. sublist w (rev (lower pw))) ws of
                 Some w \<Rightarrow> (True, ''contains reversed dictionary word '' @ quoted w)
               | None \<Rightarrow> leet_stage_spec ws (lower pw)))"
  by (simp add: contains_dictionary_def Let_def leet_loop_start split: option.splits)

section \<open>Properties of the dictionary matcher\<close>

lemma contains_dictionary_flag:
  assumes "contains_dictionary pw ws = Inr (h, m)"
  shows "h \<longleftrightarrow>
     (\<exists>w\<in>set ws. MIN_DICT_WORD_LEN \<le> length w \<and> sublist w (lower pw)) \<or>
     (\<exists>w\<in>set ws. sublist w (rev (lower pw))) \<or>
     (\<exists>p\<in>set (checked_prefixes 1 (lower pw)). \<exists>w\<in>set ws. sublist w p)"
proof (cases "find (\<lambda>w. \<not> length w < MIN_DICT_WORD_LEN \<and> sublist w (lower pw)) ws")
  case (Some w)
  then have "w \<in> set ws \<and> MIN_DICT_WORD_LEN \<le> length w \<and> sublist w (lower pw)"
    by (auto dest: find_Some_mem)
  moreover have h using assms Some by (simp add: contains_dictionary_stages)
  ultimately show ?thesis by blast
next
  case n1: None
  then have no1: "\<not> (\<exists>w\<in>set ws. MIN_DICT_WORD_LEN \<le> length w \<and> sublist w (lower pw))"
    by (auto simp: find_None_iff)
  show ?thesis
  proof (cases "find (\<lambda>w. sublist w (rev (lower pw))) ws")
    case (Some w)
    then have "w \<in> set ws \<and> sublist w (rev (lower pw))"
      by (auto dest: find_Some_mem)
    moreover have h using assms n1 Some by (simp add: contains_dictionary_stages)
    ultimately show ?thesis by blast
  next
    case None
    then have no2: "\<not> (\<exists>w\<in>set ws. sublist w (rev (lower pw)))"
      by (auto simp: find_None_iff)
    have "h = fst (leet_stage_spec ws (lower pw))"
      using assms n1 None by (simp add: contains_dictionary_stages)
    then show ?thesis using no1 no2
      by (auto simp: leet_stage_spec_def first_hit_flag)
  qed
qed

lemma contains_dictionary_no_early_hit:
  assumes "\<forall>w\<in>set ws. \<not> (MIN_DICT_WORD_LEN \<le> length w \<and> sublist w (lower pw))"
    and "\<forall>w\<in>set ws. \<not> sublist w (rev (lower pw))"
  shows "contains_dictionary pw ws = Inr (leet_stage_spec ws (lower pw))"
proof -
  have "find (\<lambda>w. \<not> length w < MIN_DICT_WORD_LEN \<and> sublist w (lower pw)) ws = None"
    using assms(1) by (auto simp: find_None_iff)
  moreover have "find (\<lambda>w. sublist w (rev (lower pw))) ws = None"
    using assms(2) by (auto simp: find_None_iff)
  ultimately show ?thesis by (simp add: contains_dictionary_stages)
qed

lemma dragon_prefixes:
  "checked_prefixes 1 (lower ''dr4g0n123456'') =
     [''d'', ''dr'', ''dra'', ''drag'', ''drago'', ''dragon'']"
  by code_simp

lemma dragon_prefix_sublist:
  "p \<in> set [''d'', ''dr'', ''dra'', ''drag'', ''drago'', ''dragon''] \<Longrightarrow> sublist p ''dragon''"
  by (auto simp: sublist_code)

text \<open>
  C2: when the verbatim and the reversed stage find nothing, the result of
  \<open>contains_dictionary\<close> is the result of the leet stage as the specification words it:
  the prefixes of the lowercased password are normalized character by character, a
  prefix is checked while the number of substitutions is at most 2, and the first
  checked prefix that contains a word is reported with the first such word. Once the
  count is above 2 the loop reports nothing for the rest of the password. For a word set
  that contains \<open>dragon\<close>, \<open>dr4g0n123456\<close> is reported by this stage.
\<close>

theorem contains_dictionary_leet_stage:
  "((\<forall>w\<in>set ws. \<not> (MIN_DICT_WORD_LEN \<le> length w \<and> sublist w (lower pw))) \<and>
    (\<forall>w\<in>set ws. \<not> sublist w (rev (lower pw)))
      \<longrightarrow> contains_dictionary pw ws = Inr (leet_stage_spec ws (lower pw)))
   \<and> (MAX_LEET_SUBSTITUTION < n \<longrightarrow> leet_loop ws norm n rest = Inr (False, []))
   \<and> (''dragon'' \<in> set ws \<and>
      (\<forall>w\<in>set ws. \<not> (MIN_DICT_WORD_LEN \<le> length w \<and> sublist w (lower ''dr4g0n123456''))) \<and>
      (\<forall>w\<in>set ws. \<not> sublist w (rev (lower ''dr4g0n123456'')))
      \<longrightarrow> (\<exists>w\<in>set ws. sublist w ''dragon'' \<and>
             contains_dictionary ''dr4g0n123456'' ws =
               Inr (True, ''contains dictionary word '' @ quoted w)))"
proof (intro conjI impI)
  assume "(\<forall>w\<in>set ws. \<not> (MIN_DICT_WORD_LEN \<le> length w \<and> sublist w (lower pw))) \<and>
    (\<forall>w\<in>set ws. \<not> sublist w (rev (lower pw)))"
  then show "contains_dictionary pw ws = Inr (leet_stage_spec ws (lower pw))"
    by (simp add: contains_dictionary_no_early_hit)
next
  assume "MAX_LEET_SUBSTITUTION < n"
  then show "leet_loop ws norm n rest = Inr (False, [])"
    by (rule leet_loop_over_budget)
next
  let ?pw = "''dr4g0n123456''"
  let ?ps = "[''d'', ''dr'', ''dra'', ''drag'', ''drago'', ''dragon'']"
  assume a: "''dragon'' \<in> set ws \<and>
      (\<forall>w\<in>set ws. \<not> (MIN_DICT_WORD_LEN \<le> length w \<and> sublist w (lower ?pw))) \<and>
      (\<forall>w\<in>set ws. \<not> sublist w (rev (lower ?pw)))"
  then have "contains_dictionary ?pw ws = Inr (leet_stage_spec ws (lower ?pw))"
    by (simp add: contains_dictionary_no_early_hit)
  then have res: "contains_dictionary ?pw ws = Inr (first_hit ws ?ps)"
    unfolding leet_stage_spec_def dragon_prefixes .
  have "\<exists>p\<in>set ?ps. \<exists>w\<in>set ws. sublist w p"
    using a by (intro bexI [of _ "''dragon''"]) auto
  then have "fst (first_hit ws ?ps)" by (simp only: first_hit_flag)
  then obtain p w where pw: "p \<in> set ?ps" "w \<in> set ws" "sublist w p"
      "first_hit ws ?ps = (True, ''contains dictionary word '' @ quoted w)"
    using first_hit_word [of ws ?ps] by blast
  from pw(1) have "sublist p ''dragon''" by (rule dragon_prefix_sublist)
  with pw(3) have "sublist w ''dragon''" by (rule sublist_order.order_trans)
  with pw(2,4) res
  show "\<exists>w\<in>set ws. sublist w ''dragon'' \<and>
             contains_dictionary ?pw ws = Inr (True, ''contains dictionary word '' @ quoted w)"
    by auto
qed

theorem contains_dictionary_leet_stage_witness:
  "''dragon'' \<in> set [''dragon'']
   \<and> \<not> sublist ''dragon'' (lower ''dr4g0n123456'')
   \<and> \<not> sublist ''dragon'' (rev (lower ''dr4g0n123456''))
   \<and> contains_dictionary ''dr4g0n123456'' [''dragon''] =
       Inr (True, ''contains dictionary word '' @ quoted ''dragon'')
   \<and> leet_stage_spec [''dragon''] (lower ''dr4g0n123456'') =
       (True, ''contains dictionary word '' @ quoted ''dragon'')
   \<and> MAX_LEET_SUBSTITUTION < 3
   \<and> leet_loop [''dragon''] ''xyz'' 3 ''dragon'' = Inr (False, [])"
proof -
  have h1: "\<forall>w\<in>set [''dragon'']. \<not> (MIN_DICT_WORD_LEN \<le> length w \<and> sublist w (lower ''dr4g0n123456''))"
    by code_simp
  have h2: "\<forall>w\<in>set [''dragon'']. \<not> sublist w (rev (lower ''dr4g0n123456''))"
    by code_simp
  have h3: "MAX_LEET_SUBSTITUTION < 3" by (simp add: MAX_LEET_SUBSTITUTION_def)
  have e: "leet_stage_spec [''dragon''] (lower ''dr4g0n123456'') =
       (True, ''contains dictionary word '' @ quoted ''dragon'')"
    by code_simp
  have s: "\<not> sublist ''dragon'' (lower ''dr4g0n123456'')"
     "\<not> sublist ''dragon'' (rev (lower ''dr4g0n123456''))"
    by code_simp+
  from contains_dictionary_leet_stage [of "[''dragon'']" "''dr4g0n123456''" 3 "''xyz''" "''dragon''"]
    h1 h2 h3 e s
  show ?thesis by simp
qed

lemma leet_char_id: "map_of LEET_MAP c = None \<Longrightarrow> leet_char c = c"
  by (simp add: leet_char_def)

lemma map_leet_char_id: "\<forall>c\<in>set w. map_of LEET_MAP c = None \<Longrightarrow> map leet_char w = w"
  by (induction w) (simp_all add: leet_char_id)

lemma whole_prefix_checked:
  assumes "s \<noteq> []" and "leet_count s \<le> MAX_LEET_SUBSTITUTION"
  shows "map leet_char s \<in> set (checked_prefixes 1 s)"
proof -
  have "length s \<in> set (filter (\<lambda>k. leet_count (take k s) \<le> MAX_LEET_SUBSTITUTION)
                               [1..<Suc (length s)])"
    using assms by (cases s) auto
  then have "map leet_char (take (length s) s) \<in> set (checked_prefixes 1 s)"
    unfolding checked_prefixes_def set_map by (rule imageI)
  then show ?thesis by simp
qed

lemma plain_word_hit:
  assumes w: "w \<in> set ws" and plain: "\<forall>c\<in>set w. map_of LEET_MAP c = None"
    and sub: "sublist w (lower pw)" and cnt: "leet_count (lower pw) \<le> MAX_LEET_SUBSTITUTION"
  shows "\<exists>m. contains_dictionary pw ws = Inr (True, m)"
proof -
  obtain h m where r: "contains_dictionary pw ws = Inr (h, m)"
    using contains_dictionary_returns [of pw ws] by auto
  have h
  proof (cases "lower pw = []")
    case True
    with sub have "sublist w (rev (lower pw))" by simp
    with w show ?thesis using contains_dictionary_flag [OF r] by blast
  next
    case False
    then have "map leet_char (lower pw) \<in> set (checked_prefixes 1 (lower pw))"
      using cnt by (rule whole_prefix_checked)
    moreover have "sublist w (map leet_char (lower pw))"
      using map_mono_sublist [OF sub, of leet_char] map_leet_char_id [OF plain] by simp
    ultimately show ?thesis using w contains_dictionary_flag [OF r] by blast
  qed
  with r show ?thesis by auto
qed

text \<open>
  C10 (amended): only the verbatim stage filters by word length: \<open>contains_dictionary\<close>
  reports a hit exactly when a word of length at least 4 occurs in the lowercased
  password, or a word of any length occurs in its reversal, or a word of any length
  occurs in a checked normalized prefix. So a word of the set made of characters that
  are not keys of \<open>LEET_MAP\<close>, however short, that occurs in a lowercased password with
  at most 2 leet characters makes the matcher report a hit; and when the verbatim and
  the reversed stage find nothing, the hit is the one of the leet stage.
\<close>

theorem contains_dictionary_length_filter:
  "(\<exists>h m. contains_dictionary pw ws = Inr (h, m) \<and>
      (h \<longleftrightarrow>
         (\<exists>w\<in>set ws. MIN_DICT_WORD_LEN \<le> length w \<and> sublist w (lower pw)) \<or>
         (\<exists>w\<in>set ws. sublist w (rev (lower pw))) \<or>
         (\<exists>p\<in>set (checked_prefixes 1 (lower pw)). \<exists>w\<in>set ws. sublist w p)))
   \<and> (w \<in> set ws \<and> (\<forall>c\<in>set w. map_of LEET_MAP c = None) \<and> sublist w (lower pw) \<and>
      leet_count (lower pw) \<le> MAX_LEET_SUBSTITUTION
      \<longrightarrow> (\<exists>m. contains_dictionary pw ws = Inr (True, m)))
   \<and> (w \<in> set ws \<and> (\<forall>c\<in>set w. map_of LEET_MAP c = None) \<and> sublist w (lower pw) \<and>
      leet_count (lower pw) \<le> MAX_LEET_SUBSTITUTION \<and>
      (\<forall>v\<in>set ws. \<not> (MIN_DICT_WORD_LEN \<le> length v \<and> sublist v (lower pw))) \<and>
      (\<forall>v\<in>set ws. \<not> sublist v (rev (lower pw)))
      \<longrightarrow> fst (leet_stage_spec ws (lower pw)) \<and>
          contains_dictionary pw ws = Inr (leet_stage_spec ws (lower pw)))"
proof (intro conjI impI)
  obtain h m where r: "contains_dictionary pw ws = Inr (h, m)"
    using contains_dictionary_returns [of pw ws] by auto
  from r contains_dictionary_flag [OF r]
  show "\<exists>h m. contains_dictionary pw ws = Inr (h, m) \<and>
      (h \<longleftrightarrow>
         (\<exists>w\<in>set ws. MIN_DICT_WORD_LEN \<le> length w \<and> sublist w (lower pw)) \<or>
         (\<exists>w\<in>set ws. sublist w (rev (lower pw))) \<or>
         (\<exists>p\<in>set (checked_prefixes 1 (lower pw)). \<exists>w\<in>set ws. sublist w p))"
    by blast
next
  assume "w \<in> set ws \<and> (\<forall>c\<in>set w. map_of LEET_MAP c = None) \<and> sublist w (lower pw) \<and>
      leet_count (lower pw) \<le> MAX_LEET_SUBSTITUTION"
  then show "\<exists>m. contains_dictionary pw ws = Inr (True, m)"
    using plain_word_hit [of w ws pw] by blast
next
  assume a: "w \<in> set ws \<and> (\<forall>c\<in>set w. map_of LEET_MAP c = None) \<and> sublist w (lower pw) \<and>
      leet_count (lower pw) \<le> MAX_LEET_SUBSTITUTION \<and>
      (\<forall>v\<in>set ws. \<not> (MIN_DICT_WORD_LEN \<le> length v \<and> sublist v (lower pw))) \<and>
      (\<forall>v\<in>set ws. \<not> sublist v (rev (lower pw)))"
  then have e: "contains_dictionary pw ws = Inr (leet_stage_spec ws (lower pw))"
    by (simp add: contains_dictionary_no_early_hit)
  from a obtain m where "contains_dictionary pw ws = Inr (True, m)"
    using plain_word_hit [of w ws pw] by blast
  with e have "leet_stage_spec ws (lower pw) = (True, m)" by simp
  then show "fst (leet_stage_spec ws (lower pw))" by simp
  show "contains_dictionary pw ws = Inr (leet_stage_spec ws (lower pw))" by (rule e)
qed

theorem contains_dictionary_length_filter_witness:
  "''cat'' \<in> set [''cat''] \<and> length ''cat'' < MIN_DICT_WORD_LEN
   \<and> sublist ''cat'' (lower ''xxCat7xx'')
   \<and> leet_count (lower ''xxCat7xx'') \<le> MAX_LEET_SUBSTITUTION
   \<and> \<not> sublist ''cat'' (rev (lower ''xxCat7xx''))
   \<and> contains_dictionary ''xxCat7xx'' [''cat''] =
       Inr (True, ''contains dictionary word '' @ quoted ''cat'')
   \<and> fst (leet_stage_spec [''cat''] (lower ''xxCat7xx''))"
proof -
  have h: "''cat'' \<in> set [''cat'']" "\<forall>c\<in>set ''cat''. map_of LEET_MAP c = None"
      "sublist ''cat'' (lower ''xxCat7xx'')"
      "leet_count (lower ''xxCat7xx'') \<le> MAX_LEET_SUBSTITUTION"
      "\<forall>v\<in>set [''cat'']. \<not> (MIN_DICT_WORD_LEN \<le> length v \<and> sublist v (lower ''xxCat7xx''))"
      "\<forall>v\<in>set [''cat'']. \<not> sublist v (rev (lower ''xxCat7xx''))"
    by code_simp+
  have e: "leet_stage_spec [''cat''] (lower ''xxCat7xx'') =
             (True, ''contains dictionary word '' @ quoted ''cat'')"
    by code_simp
  have s: "length ''cat'' < MIN_DICT_WORD_LEN" "\<not> sublist ''cat'' (rev (lower ''xxCat7xx''))"
    by code_simp+
  from contains_dictionary_length_filter [of "''xxCat7xx''" "[''cat'']" "''cat''"] h e s
  show ?thesis by simp
qed

text \<open>
  The example of the claim as stated, for any short word that occurs in the password,
  fails for a word with a leet character: \<open>1st\<close> occurs in \<open>x1stx\<close>, which has one leet
  character, and no stage reports it, since the leet stage looks for the word in the
  normalized text \<open>xlstx\<close>.
\<close>

theorem contains_dictionary_short_leet_word:
  "''1st'' \<in> set [''1st''] \<and> length ''1st'' < MIN_DICT_WORD_LEN
   \<and> sublist ''1st'' (lower ''x1stx'')
   \<and> leet_count (lower ''x1stx'') \<le> MAX_LEET_SUBSTITUTION
   \<and> contains_dictionary ''x1stx'' [''1st''] = Inr (False, [])"
  by code_simp

section \<open>Order of iteration over the word set\<close>










section \<open>The diversity rule\<close>

lemma first_hit_not_diversity:
  "first_hit ws ps = (True, m) \<Longrightarrow> m \<noteq> ''Too many similar characters''"
proof -
  assume a: "first_hit ws ps = (True, m)"
  then have "fst (first_hit ws ps)" by simp
  then obtain w where "first_hit ws ps = (True, ''contains dictionary word '' @ quoted w)"
    using first_hit_word [of ws ps] by blast
  with a show ?thesis by auto
qed

lemma contains_dictionary_not_diversity:
  assumes "contains_dictionary pw ws = Inr (True, m)"
  shows "m \<noteq> ''Too many similar characters''"
proof (cases "find (\<lambda>w. \<not> length w < MIN_DICT_WORD_LEN \<and> sublist w (lower pw)) ws")
  case (Some w)
  with assms show ?thesis by (auto simp: contains_dictionary_stages)
next
  case n1: None
  show ?thesis
  proof (cases "find (\<lambda>w. sublist w (rev (lower pw))) ws")
    case (Some w)
    with assms n1 show ?thesis by (auto simp: contains_dictionary_stages)
  next
    case None
    with assms n1 have "first_hit ws (checked_prefixes 1 (lower pw)) = (True, m)"
      by (simp add: contains_dictionary_stages leet_stage_spec_def)
    then show ?thesis by (rule first_hit_not_diversity)
  qed
qed

lemma scan_chunks_not_diversity:
  "''Too many similar characters'' \<notin> set (scan_chunks pw cs)"
  by (induction cs) auto

lemma obvious_patterns_not_diversity:
  "''Too many similar characters'' \<notin> set (obvious_patterns pw)"
  by (simp add: obvious_patterns_def Let_def sequences_def scan_chunks_not_diversity)

lemma is_lower_class_ascii:
  "is_lower_class c \<longleftrightarrow> 97 \<le> (of_char c :: nat) \<and> (of_char c :: nat) \<le> 122"
  by (simp add: is_lower_class_def char_between_def)

lemma is_upper_class_ascii:
  "is_upper_class c \<longleftrightarrow> 65 \<le> (of_char c :: nat) \<and> (of_char c :: nat) \<le> 90"
  by (simp add: is_upper_class_def char_between_def)

lemma is_digit_class_ascii:
  "is_digit_class c \<longleftrightarrow> 48 \<le> (of_char c :: nat) \<and> (of_char c :: nat) \<le> 57"
  by (simp add: is_digit_class_def char_between_def)

lemma is_symbol_class_ascii:
  "is_symbol_class c \<longleftrightarrow>
     \<not> ((97 \<le> (of_char c :: nat) \<and> (of_char c :: nat) \<le> 122) \<or>
        (65 \<le> (of_char c :: nat) \<and> (of_char c :: nat) \<le> 90) \<or>
        (48 \<le> (of_char c :: nat) \<and> (of_char c :: nat) \<le> 57))"
  unfolding is_symbol_class_def is_lower_class_ascii is_upper_class_ascii is_digit_class_ascii
  by blast

lemma categories_sum:
  "categories pw =
     (if list_ex is_lower_class pw then 1 else 0) +
     (if list_ex is_upper_class pw then 1 else 0) +
     (if list_ex is_digit_class pw then 1 else 0) +
     (if list_ex is_symbol_class pw then 1 else 0)"
  by (simp add: categories_def)

lemma categories_ascii:
  "categories pw =
     (if \<exists>c\<in>set pw. 97 \<le> (of_char c :: nat) \<and> (of_char c :: nat) \<le> 122 then 1 else 0) +
     (if \<exists>c\<in>set pw. 65 \<le> (of_char c :: nat) \<and> (of_char c :: nat) \<le> 90 then 1 else 0) +
     (if \<exists>c\<in>set pw. 48 \<le> (of_char c :: nat) \<and> (of_char c :: nat) \<le> 57 then 1 else 0) +
     (if \<exists>c\<in>set pw. \<not> ((97 \<le> (of_char c :: nat) \<and> (of_char c :: nat) \<le> 122) \<or>
                         (65 \<le> (of_char c :: nat) \<and> (of_char c :: nat) \<le> 90) \<or>
                         (48 \<le> (of_char c :: nat) \<and> (of_char c :: nat) \<le> 57))
      then 1 else 0)"
  unfolding categories_sum list_ex_iff
    is_lower_class_ascii is_upper_class_ascii is_digit_class_ascii is_symbol_class_ascii
  by (rule refl)

text \<open>
  C6 (amended): the four classes are ASCII classes: a letter \<open>a\<close> to \<open>z\<close> (code points 97
  to 122), a letter \<open>A\<close> to \<open>Z\<close> (65 to 90), a digit \<open>0\<close> to \<open>9\<close> (48 to 57), and any other
  character, a letter outside ASCII included. The reason \<open>Too many similar characters\<close>
  is in the result exactly when fewer than 3 of these classes occur in the password and
  the password has fewer than 20 characters; it is then the last reason. A password of
  20 characters or more never gets it.
\<close>

theorem check_password_strength_diversity_ascii:
  "\<exists>rs. check_password_strength pw ws = Inr rs \<and>
      (''Too many similar characters'' \<in> set rs \<longleftrightarrow> categories pw < 3 \<and> length pw < 20) \<and>
      (categories pw < 3 \<and> length pw < 20 \<longrightarrow> last rs = ''Too many similar characters'') \<and>
      (20 \<le> length pw \<longrightarrow> ''Too many similar characters'' \<notin> set rs) \<and>
      categories pw =
        (if \<exists>c\<in>set pw. 97 \<le> (of_char c :: nat) \<and> (of_char c :: nat) \<le> 122 then 1 else 0) +
        (if \<exists>c\<in>set pw. 65 \<le> (of_char c :: nat) \<and> (of_char c :: nat) \<le> 90 then 1 else 0) +
        (if \<exists>c\<in>set pw. 48 \<le> (of_char c :: nat) \<and> (of_char c :: nat) \<le> 57 then 1 else 0) +
        (if \<exists>c\<in>set pw. \<not> ((97 \<le> (of_char c :: nat) \<and> (of_char c :: nat) \<le> 122) \<or>
                            (65 \<le> (of_char c :: nat) \<and> (of_char c :: nat) \<le> 90) \<or>
                            (48 \<le> (of_char c :: nat) \<and> (of_char c :: nat) \<le> 57))
         then 1 else 0)"
proof -
  obtain h m where r: "contains_dictionary pw ws = Inr (h, m)"
    using contains_dictionary_returns [of pw ws] by auto
  let ?short = "if length pw < MIN_LENGTH then [''Password too short (min 12)''] else []"
  let ?dict = "if h then [m] else []"
  let ?base = "?short @ ?dict @ obvious_patterns pw"
  let ?div = "if categories pw < 3 \<and> length pw < 20 then [''Too many similar characters''] else []"
  have c: "check_password_strength pw ws = Inr (?base @ ?div)"
    using r by (simp add: check_password_strength_def Let_def)
  have d: "''Too many similar characters'' \<notin> set ?dict"
    using r contains_dictionary_not_diversity [of pw ws m] by auto
  have b: "''Too many similar characters'' \<notin> set ?base"
    using d obvious_patterns_not_diversity [of pw] by auto
  have 1: "''Too many similar characters'' \<in> set (?base @ ?div) \<longleftrightarrow>
             categories pw < 3 \<and> length pw < 20"
    using b by auto
  have 2: "categories pw < 3 \<and> length pw < 20 \<longrightarrow> last (?base @ ?div) = ''Too many similar characters''"
    by simp
  have 3: "20 \<le> length pw \<longrightarrow> ''Too many similar characters'' \<notin> set (?base @ ?div)"
    using b by auto
  show ?thesis
  proof (rule exI [of _ "?base @ ?div"], intro conjI)
    show "check_password_strength pw ws = Inr (?base @ ?div)" by (rule c)
    show "''Too many similar characters'' \<in> set (?base @ ?div) \<longleftrightarrow>
             categories pw < 3 \<and> length pw < 20" by (rule 1)
    show "categories pw < 3 \<and> length pw < 20 \<longrightarrow>
            last (?base @ ?div) = ''Too many similar characters''" by (rule 2)
    show "20 \<le> length pw \<longrightarrow> ''Too many similar characters'' \<notin> set (?base @ ?div)"
      by (rule 3)
  qed (rule categories_ascii)
qed

theorem check_password_strength_diversity_ascii_witness:
  "categories ''correcthorsebattery'' = 1 \<and> length ''correcthorsebattery'' = 19
   \<and> check_password_strength ''correcthorsebattery'' [] = Inr [''Too many similar characters'']
   \<and> categories ''correcthorsebatterys'' = 1 \<and> length ''correcthorsebatterys'' = 20
   \<and> check_password_strength ''correcthorsebatterys'' [] = Inr []
   \<and> categories ''zx81#kqvmwyp'' = 3
   \<and> check_password_strength ''zx81#kqvmwyp'' [] = Inr []"
proof -
  have e: "categories ''correcthorsebattery'' = 1" "length ''correcthorsebattery'' = 19"
    "categories ''correcthorsebatterys'' = 1" "length ''correcthorsebatterys'' = 20"
    "categories ''zx81#kqvmwyp'' = 3"
    by code_simp+
  have 1: "check_password_strength ''correcthorsebattery'' [] = Inr [''Too many similar characters'']"
    by code_simp
  have 2: "check_password_strength ''correcthorsebatterys'' [] = Inr []"
    by code_simp
  have 3: "check_password_strength ''zx81#kqvmwyp'' [] = Inr []"
    by code_simp
  from check_password_strength_diversity_ascii [of "''correcthorsebattery''" "[]"]
  obtain rs where "check_password_strength ''correcthorsebattery'' [] = Inr rs"
    and "''Too many similar characters'' \<in> set rs \<longleftrightarrow>
           categories ''correcthorsebattery'' < 3 \<and> length ''correcthorsebattery'' < 20"
    by blast
  with e 1 have "''Too many similar characters'' \<in> set [''Too many similar characters'']"
    by simp
  with e 1 2 3 show ?thesis by (intro conjI)
qed

text \<open>
  The claim as stated, with the classes lowercase letter, uppercase letter, digit and
  non-alphanumeric symbol, fails on a letter outside ASCII: the 12 characters
  \<open>Axqzjvkwpmy\<close> followed by the letter e with acute accent (code point 233) hold an
  uppercase letter and lowercase letters only, two classes, and get no diversity
  reason, because the code counts the accented letter as a symbol.
\<close>

theorem check_password_strength_diversity_accented:
  "spec_categories (''Axqzjvkwpmy'' @ [CHR 0xE9]) = 2
   \<and> length (''Axqzjvkwpmy'' @ [CHR 0xE9]) = 12
   \<and> categories (''Axqzjvkwpmy'' @ [CHR 0xE9]) = 3
   \<and> check_password_strength (''Axqzjvkwpmy'' @ [CHR 0xE9]) [] = Inr []"
  by code_simp

section \<open>Properties of the dictionary loader\<close>

lemma isspace_lower_char: "isspace (lower_char c) = isspace c"
  by (auto simp: isspace_def of_char_lower_char Let_def)

lemma lower_char_idem: "lower_char (lower_char c) = lower_char c"
proof -
  have "(of_char (lower_char (lower_char c)) :: nat) = of_char (lower_char c)"
    by (auto simp: of_char_lower_char [of "lower_char c"] of_char_lower_char [of c] Let_def)
  then show ?thesis by (simp only: of_char_eq_iff)
qed

lemma lower_idem: "lower (lower s) = lower s"
  by (simp add: lower_def lower_char_idem)

lemma last_dropWhile: "dropWhile P xs \<noteq> [] \<Longrightarrow> last (dropWhile P xs) = last xs"
  by (induction xs) (auto split: if_splits)

lemma strip_ends:
  "strip s = [] \<or> (\<not> isspace (hd (strip s)) \<and> \<not> isspace (last (strip s)))"
proof (cases "strip s = []")
  case True
  then show ?thesis by simp
next
  case False
  let ?t = "dropWhile isspace s"
  let ?u = "dropWhile isspace (rev ?t)"
  from False have u: "?u \<noteq> []" by (simp add: strip_def)
  have t: "?t \<noteq> []"
  proof
    assume e: "?t = []"
    have "?u = []" unfolding e by simp
    with u show False by contradiction
  qed
  have "\<not> isspace (hd ?u)" using u by (rule hd_dropWhile)
  then have l: "\<not> isspace (last (strip s))" using u by (simp add: strip_def last_rev)
  have "last ?u = last (rev ?t)" using u by (rule last_dropWhile)
  then have "hd (strip s) = hd ?t" using u t by (simp add: strip_def hd_rev last_rev)
  moreover have "\<not> isspace (hd ?t)" using t by (rule hd_dropWhile)
  ultimately show ?thesis using l by simp
qed

lemma strip_fixed:
  assumes "s = [] \<or> (\<not> isspace (hd s) \<and> \<not> isspace (last s))"
  shows "strip s = s"
proof (cases "s = []")
  case True
  then show ?thesis by (simp add: strip_def)
next
  case False
  with assms have h: "\<not> isspace (hd s)" and l: "\<not> isspace (last s)" by auto
  from False h have 1: "dropWhile isspace s = s" by (cases s) auto
  from False l have "\<not> isspace (hd (rev s))" by (simp add: hd_rev)
  with False have 2: "dropWhile isspace (rev s) = rev s" by (cases "rev s") auto
  show ?thesis by (simp add: strip_def 1 2)
qed

lemma strip_lower_strip: "strip (lower (strip line)) = lower (strip line)"
proof (rule strip_fixed)
  show "lower (strip line) = [] \<or>
        (\<not> isspace (hd (lower (strip line))) \<and> \<not> isspace (last (lower (strip line))))"
    using strip_ends [of line]
    by (auto simp: lower_def hd_map last_map isspace_lower_char)
qed

lemma set_set_add: "set (set_add w words) = insert w (set words)"
  by (auto simp: set_add_def)

lemma distinct_set_add: "distinct words \<Longrightarrow> distinct (set_add w words)"
  by (simp add: set_add_def)

lemma set_add_line:
  "set (add_line words line) =
     set words \<union> {w. w = lower (strip line) \<and> MIN_DICT_WORD_LEN \<le> length w}"
  by (auto simp: add_line_def Let_def set_set_add)

lemma distinct_add_line: "distinct words \<Longrightarrow> distinct (add_line words line)"
  by (simp add: add_line_def Let_def distinct_set_add)

lemma set_foldl_add_line:
  "set (foldl add_line words lines) =
     set words \<union> {w. \<exists>line\<in>set lines. w = lower (strip line) \<and> MIN_DICT_WORD_LEN \<le> length w}"
  by (induction lines arbitrary: words) (auto simp: set_add_line)

lemma distinct_foldl_add_line: "distinct words \<Longrightarrow> distinct (foldl add_line words lines)"
  by (induction lines arbitrary: words) (simp_all add: distinct_add_line)

lemma load_loop_returns:
  "\<forall>p\<in>set paths. snd (fs p) = None \<or>
       (\<exists>m. snd (fs p) = Some (FileNotFoundError m)) \<or>
       (\<exists>m. snd (fs p) = Some (PermissionError m)) \<Longrightarrow>
     \<exists>ws. load_loop fs words paths = Inr ws"
  by (induction paths arbitrary: words) (auto split: prod.splits option.splits)

lemma load_loop_result:
  "load_loop fs words paths = Inr ws \<Longrightarrow>
     set ws = set words \<union>
        {w. \<exists>p\<in>set paths. \<exists>line\<in>set (fst (fs p)).
              w = lower (strip line) \<and> MIN_DICT_WORD_LEN \<le> length w}
     \<and> (distinct words \<longrightarrow> distinct ws)"
proof (induction paths arbitrary: words)
  case Nil
  then show ?case by simp
next
  case (Cons p paths)
  obtain lines raised where f: "fs p = (lines, raised)" by (cases "fs p")
  let ?words = "foldl add_line words lines"
  from Cons.prems f have "load_loop fs ?words paths = Inr ws"
    by (auto simp: Let_def split: option.splits if_splits)
  from Cons.IH [OF this] f show ?case
    by (auto simp: set_foldl_add_line distinct_foldl_add_line)
qed

text \<open>
  C9: a source that is missing (\<open>FileNotFoundError\<close>) or may not be read
  (\<open>PermissionError\<close>) raises nothing in the loader: when every source is read to its
  end or fails in one of these two ways, \<open>load_word_set\<close> returns. Whenever it returns,
  its result has no repetition, and its elements are exactly the lines that were read,
  trimmed and lowercased, that have at least 4 characters; each element is its own
  trimmed and lowercased form.
\<close>

theorem load_word_set_tolerant:
  "((\<forall>p\<in>set paths. snd (fs p) = None \<or>
        (\<exists>m. snd (fs p) = Some (FileNotFoundError m)) \<or>
        (\<exists>m. snd (fs p) = Some (PermissionError m)))
      \<longrightarrow> (\<exists>ws. load_word_set fs paths = Inr ws))
   \<and> (load_word_set fs paths = Inr ws \<longrightarrow>
        distinct ws \<and>
        set ws = {w. \<exists>p\<in>set paths. \<exists>line\<in>set (fst (fs p)).
                       w = lower (strip line) \<and> MIN_DICT_WORD_LEN \<le> length w} \<and>
        (\<forall>w\<in>set ws. MIN_DICT_WORD_LEN \<le> length w \<and> strip w = w \<and> lower w = w))"
proof (intro conjI impI)
  assume "\<forall>p\<in>set paths. snd (fs p) = None \<or>
        (\<exists>m. snd (fs p) = Some (FileNotFoundError m)) \<or>
        (\<exists>m. snd (fs p) = Some (PermissionError m))"
  then show "\<exists>ws. load_word_set fs paths = Inr ws"
    unfolding load_word_set_def by (rule load_loop_returns)
next
  assume "load_word_set fs paths = Inr ws"
  then have r: "load_loop fs [] paths = Inr ws" by (simp add: load_word_set_def)
  from load_loop_result [OF r]
  show "distinct ws" by simp
  from load_loop_result [OF r]
  show s: "set ws = {w. \<exists>p\<in>set paths. \<exists>line\<in>set (fst (fs p)).
                       w = lower (strip line) \<and> MIN_DICT_WORD_LEN \<le> length w}"
    by simp
  show "\<forall>w\<in>set ws. MIN_DICT_WORD_LEN \<le> length w \<and> strip w = w \<and> lower w = w"
  proof
    fix w assume "w \<in> set ws"
    with s obtain line where "w = lower (strip line)" "MIN_DICT_WORD_LEN \<le> length w"
      by auto
    then show "MIN_DICT_WORD_LEN \<le> length w \<and> strip w = w \<and> lower w = w"
      by (simp add: strip_lower_strip lower_idem)
  qed
qed

theorem load_word_set_tolerant_witness:
  "load_word_set
     (\<lambda>p. if p = ''words'' then ([''  Hello '' @ [CHR 0x0A], ''abc'', ''hello'', ''WORLD''], None)
           else if p = ''secret'' then ([], Some (PermissionError p))
           else ([], Some (FileNotFoundError p)))
     [''missing'', ''secret'', ''words''] = Inr [''hello'', ''world'']
   \<and> distinct [''hello'', ''world'']
   \<and> strip ''hello'' = ''hello'' \<and> lower ''world'' = ''world''
   \<and> load_word_set (\<lambda>p. ([], Some (PermissionError p))) [''secret''] = Inr []
   \<and> load_word_set (\<lambda>p. ([], Some (FileNotFoundError p))) [''missing''] = Inr []"
proof -
  let ?fs = "\<lambda>p. if p = ''words'' then ([''  Hello '' @ [CHR 0x0A], ''abc'', ''hello'', ''WORLD''], None)
           else if p = ''secret'' then ([], Some (PermissionError p))
           else ([], Some (FileNotFoundError p))"
  let ?denied = "\<lambda>p::string. ([] :: string list, Some (PermissionError p))"
  let ?absent = "\<lambda>p::string. ([] :: string list, Some (FileNotFoundError p))"
  have h: "\<forall>p\<in>set [''missing'', ''secret'', ''words'']. snd (?fs p) = None \<or>
        (\<exists>m. snd (?fs p) = Some (FileNotFoundError m)) \<or>
        (\<exists>m. snd (?fs p) = Some (PermissionError m))"
    by simp
  have hd: "\<forall>p\<in>set [''secret'']. snd (?denied p) = None \<or>
        (\<exists>m. snd (?denied p) = Some (FileNotFoundError m)) \<or>
        (\<exists>m. snd (?denied p) = Some (PermissionError m))"
    by simp
  have ha: "\<forall>p\<in>set [''missing'']. snd (?absent p) = None \<or>
        (\<exists>m. snd (?absent p) = Some (FileNotFoundError m)) \<or>
        (\<exists>m. snd (?absent p) = Some (PermissionError m))"
    by simp
  have e: "load_word_set ?fs [''missing'', ''secret'', ''words''] = Inr [''hello'', ''world'']"
    by code_simp
  have ed: "load_word_set ?denied [''secret''] = Inr []" by code_simp
  have ea: "load_word_set ?absent [''missing''] = Inr []" by code_simp
  from load_word_set_tolerant [of "[''missing'', ''secret'', ''words'']" ?fs "[''hello'', ''world'']"]
    load_word_set_tolerant [of "[''secret'']" ?denied "[]"]
    load_word_set_tolerant [of "[''missing'']" ?absent "[]"]
    h hd ha e ed ea
  show ?thesis by simp
qed

end
